theory Spec2Isabelle
  imports Main "HOL-Library.AList"
begin

section \<open>Python values, dictionaries and strings\<close>

text \<open>
  The attribute dictionaries of \<^verbatim>\<open>knowledge_graph.py\<close> are typed
  \<^verbatim>\<open>Dict[str, Any]\<close>. The values the program itself stores are strings
  (timestamps, entity types, parsed text), \<^verbatim>\<open>True\<close> and \<^verbatim>\<open>None\<close>;
  \<open>pyval\<close> has exactly these, and \<^verbatim>\<open>==\<close> on them is equality.
  No operation of the program depends on the order of the keys of an attribute dict, so
  a dict is a map: \<^verbatim>\<open>d[k] = v\<close> is \<open>d(k \<mapsto> v)\<close>, \<^verbatim>\<open>d.update(other)\<close> and
  passing \<^verbatim>\<open>**other\<close> into an existing dict is \<open>d ++ other\<close>.
\<close>

datatype pyval = PyNone | PyBool bool | PyStr string

type_synonym pydict = "string \<rightharpoonup> pyval"

text \<open>\<^verbatim>\<open>d.get(k)\<close>: the value, or \<^verbatim>\<open>None\<close> when the key is absent.\<close>

definition py_get :: "pydict \<Rightarrow> string \<Rightarrow> pyval" where
  "py_get d k = (case d k of None \<Rightarrow> PyNone | Some v \<Rightarrow> v)"

text \<open>The keys of an insertion-ordered dict built by inserting \<open>xs\<close> one by one.\<close>

definition ordered_keys :: "'a list \<Rightarrow> 'a list" where
  "ordered_keys xs = rev (remdups (rev xs))"

section \<open>The networkx MultiDiGraph\<close>

text \<open>
  \<^verbatim>\<open>self.graph = nx.MultiDiGraph()\<close>. The library keeps a dict of node attributes and,
  per ordered pair of nodes, a dict of parallel edges keyed \<open>0, 1, 2, \<dots>\<close>. Nothing is
  ever removed by this program, so the node dict is an association list in insertion
  order and the adjacency is the list of all edges in insertion order: the neighbours of
  a node in adjacency order are the first occurrences in that list, and the parallel
  edges of a pair in key order are its sublist.
\<close>

record edge =
  e_source :: string
  e_target :: string
  e_data :: pydict

record multidigraph =
  g_nodes :: "(string \<times> pydict) list"
  g_edges :: "edge list"

datatype error = NetworkXError string | NodeNotFound string | KeyError string

definition empty_graph :: multidigraph where
  "empty_graph = \<lparr>g_nodes = [], g_edges = []\<rparr>"

text \<open>\<^verbatim>\<open>n in G\<close>\<close>

definition has_node :: "multidigraph \<Rightarrow> string \<Rightarrow> bool" where
  "has_node G n = (n \<in> set (map fst (g_nodes G)))"

text \<open>
  \<^verbatim>\<open>G.add_node(n, **attr)\<close>: a new node gets a fresh attribute dict updated with
  \<open>attr\<close>, that is a copy of \<open>attr\<close>; for a node already present the library updates
  the existing dict with \<open>attr\<close> (\<^verbatim>\<open>self._node[n].update(attr)\<close>), and the node keeps
  its place in the node dict.
\<close>

definition add_node :: "string \<Rightarrow> pydict \<Rightarrow> multidigraph \<Rightarrow> multidigraph" where
  "add_node n attr G =
     (case map_of (g_nodes G) n of
        None \<Rightarrow> G\<lparr>g_nodes := g_nodes G @ [(n, attr)]\<rparr>
      | Some old \<Rightarrow> G\<lparr>g_nodes := AList.update n (old ++ attr) (g_nodes G)\<rparr>)"

text \<open>
  \<^verbatim>\<open>G.add_edge(u, v, **attr)\<close> with no key: an endpoint that is not a node is added
  with no attributes (\<open>u\<close> first), and the edge gets the next unused key of the pair,
  so it is always a new edge.
\<close>

definition ensure_node :: "string \<Rightarrow> multidigraph \<Rightarrow> multidigraph" where
  "ensure_node n G = (if has_node G n then G else G\<lparr>g_nodes := g_nodes G @ [(n, Map.empty)]\<rparr>)"

definition add_edge :: "string \<Rightarrow> string \<Rightarrow> pydict \<Rightarrow> multidigraph \<Rightarrow> multidigraph" where
  "add_edge u v attr G =
     (let G' = ensure_node v (ensure_node u G)
      in G'\<lparr>g_edges := g_edges G' @ [\<lparr>e_source = u, e_target = v, e_data = attr\<rparr>]\<rparr>)"

text \<open>The keys of \<^verbatim>\<open>G._succ[n]\<close> and of \<^verbatim>\<open>G._pred[n]\<close>, in adjacency order.\<close>

definition succ_list :: "multidigraph \<Rightarrow> string \<Rightarrow> string list" where
  "succ_list G n = ordered_keys (map e_target (filter (\<lambda>e. e_source e = n) (g_edges G)))"

definition pred_list :: "multidigraph \<Rightarrow> string \<Rightarrow> string list" where
  "pred_list G n = ordered_keys (map e_source (filter (\<lambda>e. e_target e = n) (g_edges G)))"

text \<open>
  \<^verbatim>\<open>G.successors(n)\<close> and \<^verbatim>\<open>G.predecessors(n)\<close> raise \<^verbatim>\<open>NetworkXError\<close> for a
  name that is not a node.
\<close>

definition successors :: "multidigraph \<Rightarrow> string \<Rightarrow> error + string list" where
  "successors G n = (if has_node G n then Inr (succ_list G n) else Inl (NetworkXError n))"

definition predecessors :: "multidigraph \<Rightarrow> string \<Rightarrow> error + string list" where
  "predecessors G n = (if has_node G n then Inr (pred_list G n) else Inl (NetworkXError n))"

text \<open>
  \<^verbatim>\<open>G.get_edge_data(u, v)\<close>: the attribute dicts of the parallel edges from \<open>u\<close> to
  \<open>v\<close> in key order. With no such edge the library returns \<^verbatim>\<open>None\<close>; the source
  only tests the result for truth (\<^verbatim>\<open>if edges:\<close>), so \<^verbatim>\<open>None\<close> is the empty list here.
\<close>

definition get_edge_data :: "multidigraph \<Rightarrow> string \<Rightarrow> string \<Rightarrow> pydict list" where
  "get_edge_data G u v =
     map e_data (filter (\<lambda>e. e_source e = u \<and> e_target e = v) (g_edges G))"

text \<open>\<^verbatim>\<open>G.nodes[n]\<close> raises \<^verbatim>\<open>KeyError\<close> for a name that is not a node.\<close>

definition nodes_getitem :: "multidigraph \<Rightarrow> string \<Rightarrow> error + pydict" where
  "nodes_getitem G n = (case map_of (g_nodes G) n of None \<Rightarrow> Inl (KeyError n) | Some d \<Rightarrow> Inr d)"


definition number_of_edges :: "multidigraph \<Rightarrow> nat" where
  "number_of_edges G = length (g_edges G)"

text \<open>
  The library's invariant: node names are unique and every edge joins two nodes.
\<close>

definition graph_ok :: "multidigraph \<Rightarrow> bool" where
  "graph_ok G =
     (distinct (map fst (g_nodes G)) \<and>
      list_all (\<lambda>e. has_node G (e_source e) \<and> has_node G (e_target e)) (g_edges G))"

section \<open>CompetitiveKnowledgeGraph: state and mutation\<close>

text \<open>
  The object's three fields. \<^verbatim>\<open>datetime.now().isoformat()\<close> reads the world: the
  clock is a parameter \<open>clk\<close> giving the text of the \<open>n\<close>-th reading, and \<open>ticks\<close>
  counts the readings made so far.
\<close>

record history_record =
  h_source :: string
  h_target :: string
  h_type :: string
  h_timestamp :: string

record kg =
  graph :: multidigraph
  entity_attributes :: "string \<rightharpoonup> pydict"
  relationship_history :: "history_record list"
  ticks :: nat

definition init :: kg where
  "init = \<lparr>graph = empty_graph, entity_attributes = Map.empty, relationship_history = [], ticks = 0\<rparr>"

text \<open>The default \<^verbatim>\<open>attributes=None\<close> becomes a fresh empty dict.\<close>

definition default_attributes :: "pydict option \<Rightarrow> pydict" where
  "default_attributes attributes = (case attributes of None \<Rightarrow> Map.empty | Some a \<Rightarrow> a)"

definition add_company :: "(nat \<Rightarrow> string) \<Rightarrow> kg \<Rightarrow> string \<Rightarrow> pydict option \<Rightarrow> kg" where
  "add_company clk s company_name attributes =
     (let attributes = default_attributes attributes;
          attributes = attributes(''added_at'' \<mapsto> PyStr (clk (ticks s)));
          attributes = attributes(''entity_type'' \<mapsto> PyStr ''company'')
      in s\<lparr>graph := add_node company_name attributes (graph s),
           entity_attributes := (entity_attributes s)(company_name \<mapsto> attributes),
           ticks := Suc (ticks s)\<rparr>)"

definition add_relationship ::
  "(nat \<Rightarrow> string) \<Rightarrow> kg \<Rightarrow> string \<Rightarrow> string \<Rightarrow> string \<Rightarrow> pydict option \<Rightarrow> kg" where
  "add_relationship clk s source target relationship_type attributes =
     (let attributes = default_attributes attributes;
          attributes = attributes(''relationship_type'' \<mapsto> PyStr relationship_type);
          attributes = attributes(''added_at'' \<mapsto> PyStr (clk (ticks s)))
      in s\<lparr>graph := add_edge source target attributes (graph s),
           relationship_history := relationship_history s @
             [\<lparr>h_source = source, h_target = target, h_type = relationship_type,
               h_timestamp = clk (ticks s)\<rparr>],
           ticks := Suc (ticks s)\<rparr>)"

definition add_product ::
  "(nat \<Rightarrow> string) \<Rightarrow> kg \<Rightarrow> string \<Rightarrow> string \<Rightarrow> pydict option \<Rightarrow> kg" where
  "add_product clk s product_name company attributes =
     (let attributes = default_attributes attributes;
          attributes = attributes(''entity_type'' \<mapsto> PyStr ''product'');
          attributes = attributes(''added_at'' \<mapsto> PyStr (clk (ticks s)));
          s' = s\<lparr>graph := add_node product_name attributes (graph s),
                 entity_attributes := (entity_attributes s)(product_name \<mapsto> attributes),
                 ticks := Suc (ticks s)\<rparr>
      in add_relationship clk s' company product_name ''produces''
           (Some [''description'' \<mapsto> PyStr (company @ '' produces '' @ product_name)]))"

definition add_market :: "(nat \<Rightarrow> string) \<Rightarrow> kg \<Rightarrow> string \<Rightarrow> pydict option \<Rightarrow> kg" where
  "add_market clk s market_name attributes =
     (let attributes = default_attributes attributes;
          attributes = attributes(''entity_type'' \<mapsto> PyStr ''market'');
          attributes = attributes(''added_at'' \<mapsto> PyStr (clk (ticks s)))
      in s\<lparr>graph := add_node market_name attributes (graph s),
           entity_attributes := (entity_attributes s)(market_name \<mapsto> attributes),
           ticks := Suc (ticks s)\<rparr>)"

definition add_person ::
  "(nat \<Rightarrow> string) \<Rightarrow> kg \<Rightarrow> string \<Rightarrow> string \<Rightarrow> string \<Rightarrow> pydict option \<Rightarrow> kg" where
  "add_person clk s person_name company role attributes =
     (let attributes = default_attributes attributes;
          attributes = attributes(''entity_type'' \<mapsto> PyStr ''person'');
          attributes = attributes(''role'' \<mapsto> PyStr role);
          attributes = attributes(''added_at'' \<mapsto> PyStr (clk (ticks s)));
          s' = s\<lparr>graph := add_node person_name attributes (graph s),
                 entity_attributes := (entity_attributes s)(person_name \<mapsto> attributes),
                 ticks := Suc (ticks s)\<rparr>
      in add_relationship clk s' person_name company ''works_at''
           (Some [''role'' \<mapsto> PyStr role,
                  ''description'' \<mapsto> PyStr (person_name @ '' is '' @ role @ '' at '' @ company)]))"

section \<open>Queries\<close>

text \<open>
  \<^verbatim>\<open>get_competitors\<close>: the first loop appends the target once for every outgoing
  edge typed \<^verbatim>\<open>competes_with\<close>; the second loop appends the source of an incoming
  such edge when it is not in the list yet. Neither call of the library is guarded.
\<close>

definition is_competes_with :: "pydict \<Rightarrow> bool" where
  "is_competes_with edge_data = (py_get edge_data ''relationship_type'' = PyStr ''competes_with'')"

definition outgoing_competitors :: "multidigraph \<Rightarrow> string \<Rightarrow> string list \<Rightarrow> string list" where
  "outgoing_competitors G company succs =
     fold (\<lambda>target competitors.
             let edges = get_edge_data G company target
             in if edges \<noteq> []
                then fold (\<lambda>edge_data competitors.
                             if is_competes_with edge_data then competitors @ [target]
                             else competitors) edges competitors
                else competitors) succs []"

definition incoming_competitors ::
  "multidigraph \<Rightarrow> string \<Rightarrow> string list \<Rightarrow> string list \<Rightarrow> string list" where
  "incoming_competitors G company preds competitors0 =
     fold (\<lambda>source competitors.
             let edges = get_edge_data G source company
             in if edges \<noteq> []
                then fold (\<lambda>edge_data competitors.
                             if is_competes_with edge_data
                             then (if source \<notin> set competitors then competitors @ [source]
                                   else competitors)
                             else competitors) edges competitors
                else competitors) preds competitors0"

definition get_competitors :: "kg \<Rightarrow> string \<Rightarrow> error + string list" where
  "get_competitors s company =
     (case successors (graph s) company of
        Inl e \<Rightarrow> Inl e
      | Inr succs \<Rightarrow>
          (let competitors = outgoing_competitors (graph s) company succs
           in case predecessors (graph s) company of
                Inl e \<Rightarrow> Inl e
              | Inr preds \<Rightarrow> Inr (incoming_competitors (graph s) company preds competitors)))"

text \<open>
  The loop \<^verbatim>\<open>for target in successors: if nodes[target].get('entity_type') == t\<close>,
  collecting into a list (\<^verbatim>\<open>get_company_products\<close>). The lookup \<^verbatim>\<open>nodes[target]\<close>
  raises for a name that is not a node, at the first such target.
\<close>

fun typed_targets :: "multidigraph \<Rightarrow> string \<Rightarrow> string list \<Rightarrow> error + string list" where
  "typed_targets G t [] = Inr []"
| "typed_targets G t (target # rest) =
     (case nodes_getitem G target of
        Inl e \<Rightarrow> Inl e
      | Inr d \<Rightarrow>
          (case typed_targets G t rest of
             Inl e \<Rightarrow> Inl e
           | Inr found \<Rightarrow> Inr (if py_get d ''entity_type'' = PyStr t then target # found else found)))"

definition get_company_products :: "kg \<Rightarrow> string \<Rightarrow> error + string list" where
  "get_company_products s company =
     (case successors (graph s) company of
        Inl e \<Rightarrow> Inl e
      | Inr succs \<Rightarrow> typed_targets (graph s) ''product'' succs)"

text \<open>
  \<^verbatim>\<open>get_shared_markets\<close> collects the market-typed successors of each company into a
  Python set and returns \<^verbatim>\<open>list(markets1.intersection(markets2))\<close>. The order in which
  a Python set is listed is not determined by the program, so the returned collection
  is a set here.
\<close>

definition get_shared_markets :: "kg \<Rightarrow> string \<Rightarrow> string \<Rightarrow> error + string set" where
  "get_shared_markets s company1 company2 =
     (case successors (graph s) company1 of
        Inl e \<Rightarrow> Inl e
      | Inr succs1 \<Rightarrow>
          (case typed_targets (graph s) ''market'' succs1 of
             Inl e \<Rightarrow> Inl e
           | Inr markets1 \<Rightarrow>
               (case successors (graph s) company2 of
                  Inl e \<Rightarrow> Inl e
                | Inr succs2 \<Rightarrow>
                    (case typed_targets (graph s) ''market'' succs2 of
                       Inl e \<Rightarrow> Inl e
                     | Inr markets2 \<Rightarrow> Inr (set markets1 \<inter> set markets2)))))"

text \<open>
  \<^verbatim>\<open>find_competitive_threats\<close>. The two product lists are turned into Python sets and
  the nested loop visits every pair once, in an order the program does not determine;
  \<open>overlapping_products\<close> is therefore a set of entries. Both \<^verbatim>\<open>nodes[...]\<close> lookups
  are on names that \<^verbatim>\<open>get_company_products\<close> has already looked up, so they cannot
  raise; \<open>node_data\<close> is that lookup.
\<close>

record overlap =
  user_product :: string
  competitor_product :: string
  category :: pyval

record threats =
  shared_markets :: "string set"
  competitor_advantages :: "string list"
  overlapping_products :: "overlap set"
  market_position :: pydict

definition node_data :: "multidigraph \<Rightarrow> string \<Rightarrow> pydict" where
  "node_data G n = (case map_of (g_nodes G) n of None \<Rightarrow> Map.empty | Some d \<Rightarrow> d)"

definition product_overlaps :: "multidigraph \<Rightarrow> string set \<Rightarrow> string set \<Rightarrow> overlap set" where
  "product_overlaps G user_products competitor_products =
     (\<Union>user_prod \<in> user_products. \<Union>comp_prod \<in> competitor_products.
        (let user_attrs = node_data G user_prod;
             comp_attrs = node_data G comp_prod
         in if py_get user_attrs ''category'' = py_get comp_attrs ''category''
            then {\<lparr>user_product = user_prod, competitor_product = comp_prod,
                    category = py_get user_attrs ''category''\<rparr>}
            else {}))"

definition find_competitive_threats :: "kg \<Rightarrow> string \<Rightarrow> string \<Rightarrow> error + threats" where
  "find_competitive_threats s user_company competitor =
     (case get_shared_markets s user_company competitor of
        Inl e \<Rightarrow> Inl e
      | Inr shared \<Rightarrow>
          (case get_company_products s user_company of
             Inl e \<Rightarrow> Inl e
           | Inr user_products \<Rightarrow>
               (case get_company_products s competitor of
                  Inl e \<Rightarrow> Inl e
                | Inr competitor_products \<Rightarrow>
                    Inr \<lparr>shared_markets = shared, competitor_advantages = [],
                         overlapping_products =
                           product_overlaps (graph s) (set user_products) (set competitor_products),
                         market_position = Map.empty\<rparr>)))"

subsection \<open>Path discovery\<close>

text \<open>
  \<^verbatim>\<open>nx.all_simple_paths(G, source, target, cutoff)\<close> is library code; this is the
  algorithm of the current networkx 3 releases.
  A source that is not a node raises \<^verbatim>\<open>NodeNotFound\<close>. A target that is a node is the
  only target; a target that is not a node is taken as an iterable of nodes, and a
  Python string iterates as its one-character substrings. With a non-negative cutoff and
  some target, a depth-first search starts from a dummy edge into the source. It walks
  the out-edges of the last node of the current path (one per parallel edge, grouped by
  neighbour), skips a node already on the path, yields the path to a node that is a
  target, and descends into a node only while the path has fewer than \<open>cutoff\<close> nodes
  before it and some target is still off the path.
\<close>

definition out_edges :: "multidigraph \<Rightarrow> string \<Rightarrow> string list" where
  "out_edges G u = concat (map (\<lambda>v. map (\<lambda>d. v) (get_edge_data G u v)) (succ_list G u))"

function explore ::
  "multidigraph \<Rightarrow> string set \<Rightarrow> nat \<Rightarrow> string list \<Rightarrow> string list \<Rightarrow> string list list" where
  "explore G targets cutoff path [] = []"
| "explore G targets cutoff path (v # es) =
     (if v \<in> set path then explore G targets cutoff path es
      else (if v \<in> targets then [path @ [v]] else []) @
           (if length path < cutoff \<and> targets - set path - {v} \<noteq> {}
            then explore G targets cutoff (path @ [v]) (out_edges G v) else []) @
           explore G targets cutoff path es)"
  by pat_completeness auto
termination
  by (relation "measures [\<lambda>(G, targets, cutoff, path, es). cutoff - length path,
                          \<lambda>(G, targets, cutoff, path, es). length es]") auto

definition all_simple_paths ::
  "multidigraph \<Rightarrow> string \<Rightarrow> string \<Rightarrow> int \<Rightarrow> error + string list list" where
  "all_simple_paths G source target cutoff =
     (if \<not> has_node G source then Inl (NodeNotFound source)
      else let targets = (if has_node G target then {target} else (\<lambda>c. [c]) ` set target)
           in if cutoff \<ge> 0 \<and> targets \<noteq> {}
              then Inr (explore G targets (nat cutoff) [] [source])
              else Inr [])"

text \<open>
  \<^verbatim>\<open>get_relationship_path\<close> returns the paths, or \<^verbatim>\<open>[]\<close> when the library raises
  \<^verbatim>\<open>NetworkXNoPath\<close> or \<^verbatim>\<open>NodeNotFound\<close>; any other exception would propagate.
\<close>

definition get_relationship_path ::
  "kg \<Rightarrow> string \<Rightarrow> string \<Rightarrow> int \<Rightarrow> error + string list list" where
  "get_relationship_path s source target max_length =
     (case all_simple_paths (graph s) source target max_length of
        Inl (NodeNotFound n) \<Rightarrow> Inr []
      | Inl e \<Rightarrow> Inl e
      | Inr paths \<Rightarrow> Inr paths)"

subsection \<open>Export\<close>






section \<open>Strings\<close>

text \<open>
  A Python string is a list of characters; the operations below are the string
  methods the parser calls. \<open>py_isspace\<close> is the whitespace that \<^verbatim>\<open>str.strip()\<close>
  removes, for code points below 256. \<^verbatim>\<open>str.split(sep)\<close> cuts at the successive
  occurrences of \<open>sep\<close> from the left; Python rejects an empty separator, and every
  call in the source passes a literal one that is not empty.
\<close>

definition py_isspace :: "char \<Rightarrow> bool" where
  "py_isspace c =
     (let n = (of_char c :: nat)
      in (9 \<le> n \<and> n \<le> 13) \<or> (28 \<le> n \<and> n \<le> 32) \<or> n = 133 \<or> n = 160)"

definition py_strip :: "string \<Rightarrow> string" where
  "py_strip s = rev (dropWhile py_isspace (rev (dropWhile py_isspace s)))"

definition startswith :: "string \<Rightarrow> string \<Rightarrow> bool" where
  "startswith s p = (take (length p) s = p)"

text \<open>\<^verbatim>\<open>sub in s\<close>\<close>

fun py_contains :: "string \<Rightarrow> string \<Rightarrow> bool" where
  "py_contains sub [] = (sub = [])"
| "py_contains sub (c # cs) = (startswith (c # cs) sub \<or> py_contains sub cs)"

text \<open>\<^verbatim>\<open>s.split(sep)\<close>\<close>

function py_split :: "string \<Rightarrow> string \<Rightarrow> string list" where
  "py_split sep [] = [[]]"
| "py_split sep (c # cs) =
     (if sep \<noteq> [] \<and> startswith (c # cs) sep
      then [] # py_split sep (drop (length sep) (c # cs))
      else (case py_split sep cs of [] \<Rightarrow> [[c]] | p # ps \<Rightarrow> (c # p) # ps))"
  by pat_completeness auto
termination
  by (relation "measure (\<lambda>(sep, s). length s)") auto

text \<open>\<^verbatim>\<open>s.split(sep, 1)\<close>: cut at the first occurrence only.\<close>

fun split_once :: "string \<Rightarrow> string \<Rightarrow> string list" where
  "split_once sep [] = [[]]"
| "split_once sep (c # cs) =
     (if sep \<noteq> [] \<and> startswith (c # cs) sep
      then [[], drop (length sep) (c # cs)]
      else (case split_once sep cs of [] \<Rightarrow> [[c]] | p # ps \<Rightarrow> (c # p) # ps))"

section \<open>parse_entity_extraction: attribute strings and relationship lines\<close>




text \<open>
  The body of the loop over \<^verbatim>\<open>sections['RELATIONSHIPS']\<close> (source lines 539 to 569).
  Nothing in the body can raise, so the handler that prints and continues is never
  entered. \<^verbatim>\<open>if description:\<close> is false for \<^verbatim>\<open>None\<close> and for the empty string.
\<close>

definition process_relationship_line :: "(nat \<Rightarrow> string) \<Rightarrow> kg \<Rightarrow> string \<Rightarrow> kg" where
  "process_relationship_line clk s line0 =
     (if \<not> startswith line0 ''- '' then s
      else let line = py_strip (drop 2 line0)
           in if \<not> py_contains ''->'' line then s
              else let parts = py_split ''->'' line
                   in if length parts \<ge> 3
                      then (let source = py_strip (parts ! 0);
                                rel_type = py_strip (parts ! 1);
                                target_part = parts ! 2;
                                target_parts = split_once '':'' target_part;
                                target = py_strip (target_parts ! 0);
                                description =
                                  (if length target_parts > 1
                                   then Some (py_strip (target_parts ! 1)) else None)
                            in if has_node (graph s) source \<and> has_node (graph s) target
                               then (let attrs =
                                           (case description of
                                              None \<Rightarrow> Map.empty
                                            | Some d \<Rightarrow>
                                                if d \<noteq> [] then [''description'' \<mapsto> PyStr d]
                                                else Map.empty)
                                     in add_relationship clk s source target rel_type (Some attrs))
                               else s)
                      else s)"

definition process_relationships :: "(nat \<Rightarrow> string) \<Rightarrow> kg \<Rightarrow> string list \<Rightarrow> kg" where
  "process_relationships clk s lines = fold (\<lambda>line s. process_relationship_line clk s line) lines s"

section \<open>What the specification says, for comparison\<close>



text \<open>
  A simple directed path from \<open>s\<close> to \<open>t\<close>: a non-empty list of distinct nodes that
  starts at \<open>s\<close>, ends at \<open>t\<close>, and has an edge of the graph between each node and the
  next. Its number of edges is its length less one.
\<close>

definition has_edge :: "multidigraph \<Rightarrow> string \<Rightarrow> string \<Rightarrow> bool" where
  "has_edge G u v = list_ex (\<lambda>e. e_source e = u \<and> e_target e = v) (g_edges G)"

fun is_walk :: "multidigraph \<Rightarrow> string list \<Rightarrow> bool" where
  "is_walk G [] = False"
| "is_walk G [v] = True"
| "is_walk G (u # v # p) = (has_edge G u v \<and> is_walk G (v # p))"

definition simple_path :: "multidigraph \<Rightarrow> string \<Rightarrow> string \<Rightarrow> string list \<Rightarrow> bool" where
  "simple_path G s t p = (p \<noteq> [] \<and> hd p = s \<and> last p = t \<and> distinct p \<and> is_walk G p)"

text \<open>
  A path \<open>p\<close> continues \<open>path\<close> through one of the nodes \<open>es\<close>: it is \<open>path\<close>
  followed by a walk of new, distinct nodes that starts in \<open>es\<close> and ends at \<open>t\<close>, and
  unless the walk is a single node the whole has at most \<open>k + 1\<close> nodes.
\<close>

definition extends_path ::
  "multidigraph \<Rightarrow> string \<Rightarrow> nat \<Rightarrow> string list \<Rightarrow> string list \<Rightarrow> string list \<Rightarrow> bool" where
  "extends_path G t k path es p =
     (\<exists>v q. p = path @ v # q \<and> v \<in> set es \<and> distinct (v # q) \<and> set (v # q) \<inter> set path = {} \<and>
            is_walk G (v # q) \<and> last (v # q) = t \<and> (q = [] \<or> length p \<le> k + 1))"

text \<open>Some edge from \<open>a\<close> to \<open>b\<close> is typed \<^verbatim>\<open>competes_with\<close>.\<close>

definition competes_edge :: "multidigraph \<Rightarrow> string \<Rightarrow> string \<Rightarrow> bool" where
  "competes_edge G a b =
     list_ex (\<lambda>e. e_source e = a \<and> e_target e = b \<and> is_competes_with (e_data e)) (g_edges G)"

text \<open>No ordered pair of nodes is joined by more than one edge.\<close>

definition no_parallel_edges :: "multidigraph \<Rightarrow> bool" where
  "no_parallel_edges G = distinct (map (\<lambda>e. (e_source e, e_target e)) (g_edges G))"

section \<open>Example graphs\<close>

definition clock0 :: "nat \<Rightarrow> string" where
  "clock0 n = ''2024-01-01T00:00:00''"

text \<open>Two companies and one \<^verbatim>\<open>competes_with\<close> edge between them.\<close>

definition acme_globex :: kg where
  "acme_globex =
     add_relationship clock0
       (add_company clock0 (add_company clock0 init ''Acme'' None) ''Globex'' None)
       ''Acme'' ''Globex'' ''competes_with'' None"

text \<open>The same rivalry recorded a second time, as a second call or a second parse does.\<close>

definition acme_globex_twice :: kg where
  "acme_globex_twice = add_relationship clock0 acme_globex ''Acme'' ''Globex'' ''competes_with'' None"

text \<open>Each company makes one product; neither product has a category.\<close>

definition uncategorised_products :: kg where
  "uncategorised_products =
     add_product clock0 (add_product clock0 acme_globex ''Widget'' ''Acme'' None)
       ''Gadget'' ''Globex'' None"

text \<open>Both companies operate in one market.\<close>

definition shared_cloud :: kg where
  "shared_cloud =
     add_relationship clock0
       (add_relationship clock0 (add_market clock0 acme_globex ''Cloud'' None)
          ''Acme'' ''Cloud'' ''operates_in'' None)
       ''Globex'' ''Cloud'' ''operates_in'' None"

text \<open>The chain \<open>A \<rightarrow> B \<rightarrow> C \<rightarrow> D\<close>.\<close>

definition chain_abcd :: kg where
  "chain_abcd =
     add_relationship clock0
       (add_relationship clock0
          (add_relationship clock0 init ''A'' ''B'' ''supplies'' None)
          ''B'' ''C'' ''supplies'' None)
       ''C'' ''D'' ''supplies'' None"



text \<open>Two lines of a Relationships section: one names a target unknown to \<open>acme_globex\<close>.\<close>

definition line_initech :: string where
  "line_initech = ''- Acme -> partners_with -> Initech''"

definition line_globex :: string where
  "line_globex = ''- Acme -> partners_with -> Globex: joint venture''"

section \<open>Properties of the graph primitives\<close>

lemma has_node_map_of: "has_node G n \<longleftrightarrow> map_of (g_nodes G) n \<noteq> None"
  by (simp add: has_node_def map_of_eq_None_iff)

lemma g_edges_ensure_node [simp]: "g_edges (ensure_node n G) = g_edges G"
  by (simp add: ensure_node_def)

lemma g_nodes_ensure_node:
  "g_nodes (ensure_node n G) = g_nodes G @ (if has_node G n then [] else [(n, Map.empty)])"
  by (simp add: ensure_node_def)

lemma has_node_ensure_node [simp]: "has_node (ensure_node n G) m \<longleftrightarrow> m = n \<or> has_node G m"
  by (auto simp: ensure_node_def has_node_def)

lemma g_edges_add_edge:
  "g_edges (add_edge u v attr G) = g_edges G @ [\<lparr>e_source = u, e_target = v, e_data = attr\<rparr>]"
  by (simp add: add_edge_def Let_def)

lemma g_nodes_add_edge:
  "g_nodes (add_edge u v attr G) =
     g_nodes G @ (if has_node G u then [] else [(u, Map.empty)])
               @ (if has_node G v \<or> v = u then [] else [(v, Map.empty)])"
  by (auto simp: add_edge_def Let_def g_nodes_ensure_node)

lemma has_node_add_edge [simp]:
  "has_node (add_edge u v attr G) m \<longleftrightarrow> m = u \<or> m = v \<or> has_node G m"
  by (auto simp: add_edge_def Let_def has_node_def g_nodes_ensure_node)


lemma g_edges_add_node [simp]: "g_edges (add_node n attr G) = g_edges G"
  by (simp add: add_node_def split: option.splits)

lemma names_add_node:
  "map fst (g_nodes (add_node n attr G)) =
     map fst (g_nodes G) @ (if has_node G n then [] else [n])"
  by (auto simp: add_node_def has_node_map_of update_keys map_of_eq_None_iff split: option.splits)

lemma has_node_add_node [simp]: "has_node (add_node n attr G) m \<longleftrightarrow> m = n \<or> has_node G m"
  unfolding has_node_def names_add_node by (auto simp: has_node_def)





lemma graph_ok_add_node: "graph_ok G \<Longrightarrow> graph_ok (add_node n attr G)"
proof -
  assume ok: "graph_ok G"
  have "distinct (map fst (g_nodes (add_node n attr G)))"
    using ok unfolding names_add_node by (auto simp: graph_ok_def has_node_def)
  moreover have "list_all (\<lambda>e. has_node (add_node n attr G) (e_source e) \<and>
                                has_node (add_node n attr G) (e_target e)) (g_edges (add_node n attr G))"
    using ok by (auto simp: graph_ok_def list_all_iff)
  ultimately show ?thesis by (simp add: graph_ok_def)
qed

lemma graph_ok_add_edge: "graph_ok G \<Longrightarrow> graph_ok (add_edge u v attr G)"
  unfolding graph_ok_def
  by (auto simp: list_all_iff g_edges_add_edge g_nodes_add_edge has_node_def)

section \<open>Properties of the mutators\<close>

lemma graph_add_relationship:
  "graph (add_relationship clk s a b t attrs) =
     add_edge a b ((default_attributes attrs)(''relationship_type'' \<mapsto> PyStr t,
                                               ''added_at'' \<mapsto> PyStr (clk (ticks s)))) (graph s)"
  by (simp add: add_relationship_def Let_def)

lemma ticks_add_relationship [simp]: "ticks (add_relationship clk s a b t attrs) = Suc (ticks s)"
  by (simp add: add_relationship_def Let_def)

lemma entity_attributes_add_relationship [simp]:
  "entity_attributes (add_relationship clk s a b t attrs) = entity_attributes s"
  by (simp add: add_relationship_def Let_def)



lemma set_ordered_keys [simp]: "set (ordered_keys xs) = set xs"
  by (simp add: ordered_keys_def)

lemma distinct_ordered_keys [simp]: "distinct (ordered_keys xs)"
  by (simp add: ordered_keys_def)

lemma set_succ_list: "set (succ_list G u) = {e_target e | e. e \<in> set (g_edges G) \<and> e_source e = u}"
  by (auto simp: succ_list_def)

lemma set_pred_list: "set (pred_list G v) = {e_source e | e. e \<in> set (g_edges G) \<and> e_target e = v}"
  by (auto simp: pred_list_def)



section \<open>Multi-edges\<close>


section \<open>Endpoints created by add_relationship\<close>



section \<open>Adding an entity again\<close>




section \<open>Unknown names, overlaps and competitors\<close>

text \<open>
  A query that starts from \<^verbatim>\<open>successors\<close> raises for a name that is not a node.
  \<^verbatim>\<open>get_relationship_path\<close> never raises, and gives the empty list when the source
  is not a node. A target that is not a node is read by the library as a collection of
  one-character names, so a path to a node named by one of its characters is returned.
\<close>

lemma get_competitors_unknown:
  "\<not> has_node (graph s) company \<Longrightarrow> get_competitors s company = Inl (NetworkXError company)"
  by (simp add: get_competitors_def successors_def)

lemma get_shared_markets_unknown:
  "\<not> has_node (graph s) a \<Longrightarrow> get_shared_markets s a b = Inl (NetworkXError a)"
  by (simp add: get_shared_markets_def successors_def)

lemma get_company_products_unknown:
  "\<not> has_node (graph s) company \<Longrightarrow> get_company_products s company = Inl (NetworkXError company)"
  by (simp add: get_company_products_def successors_def)

lemma get_relationship_path_returns:
  "\<exists>paths. get_relationship_path s source target max_length = Inr paths"
  by (simp add: get_relationship_path_def all_simple_paths_def Let_def del: explore.simps)

lemma get_relationship_path_missing_source:
  "\<not> has_node (graph s) source \<Longrightarrow> get_relationship_path s source target max_length = Inr []"
  by (simp add: get_relationship_path_def all_simple_paths_def)

lemma get_relationship_path_missing_target_example:
  "\<not> has_node (graph chain_abcd) ''BZ'' \<and>
   get_relationship_path chain_abcd ''A'' ''BZ'' 3 = Inr [[''A'', ''B'']]"
  by (intro conjI; code_simp)

text \<open>
  Claim C2 on the code: \<^verbatim>\<open>get_competitors\<close> of a name that is not a node does not
  return the empty list. The library call \<^verbatim>\<open>successors\<close> raises and nothing catches it.
\<close>

theorem get_competitors_unknown_raises:
  "get_competitors acme_globex ''Initech'' = Inl (NetworkXError ''Initech'')"
  by code_simp

text \<open>
  The overlap entries are exactly the pairs of products whose \<^verbatim>\<open>.get('category')\<close>
  are equal, an absent category counting as \<^verbatim>\<open>None\<close>.
\<close>

lemma product_overlaps_iff:
  "x \<in> product_overlaps G U C \<longleftrightarrow>
     user_product x \<in> U \<and> competitor_product x \<in> C \<and>
     py_get (node_data G (user_product x)) ''category'' =
       py_get (node_data G (competitor_product x)) ''category'' \<and>
     category x = py_get (node_data G (user_product x)) ''category''"
  by (cases x) (auto simp: product_overlaps_def Let_def)

text \<open>
  Claim C3 on the code: neither \<^verbatim>\<open>Widget\<close> nor \<^verbatim>\<open>Gadget\<close> has a \<^verbatim>\<open>category\<close>, yet
  the pair is recorded as an overlap, with category \<^verbatim>\<open>None\<close>: both lookups give
  \<^verbatim>\<open>None\<close> and \<^verbatim>\<open>None == None\<close> holds.
\<close>

theorem uncategorised_products_overlap:
  "map_sum id overlapping_products
     (find_competitive_threats uncategorised_products ''Acme'' ''Globex'') =
   Inr {\<lparr>user_product = ''Widget'', competitor_product = ''Gadget'', category = PyNone\<rparr>}"
  by code_simp

text \<open>
  The names returned by \<^verbatim>\<open>get_competitors\<close> for a node are those joined to it by a
  \<^verbatim>\<open>competes_with\<close> edge in either direction, so the relation it reports is
  symmetric.
\<close>

lemma inner_outgoing:
  "set (fold (\<lambda>edge_data competitors.
                if is_competes_with edge_data then competitors @ [target] else competitors)
             ds acc) =
   set acc \<union> (if list_ex is_competes_with ds then {target} else {})"
  by (induction ds arbitrary: acc) auto

lemma inner_incoming:
  "set (fold (\<lambda>edge_data competitors.
                if is_competes_with edge_data
                then (if source \<notin> set competitors then competitors @ [source] else competitors)
                else competitors)
             ds acc) =
   set acc \<union> (if list_ex is_competes_with ds then {source} else {})"
  by (induction ds arbitrary: acc) auto

lemma set_outgoing_fold:
  "set (fold (\<lambda>target competitors.
             let edges = get_edge_data G company target
             in if edges \<noteq> []
                then fold (\<lambda>edge_data competitors.
                             if is_competes_with edge_data then competitors @ [target]
                             else competitors) edges competitors
                else competitors) succs acc) =
   set acc \<union> {t \<in> set succs. list_ex is_competes_with (get_edge_data G company t)}"
  by (induction succs arbitrary: acc) (auto simp: Let_def inner_outgoing)

lemma set_incoming_fold:
  "set (fold (\<lambda>source competitors.
             let edges = get_edge_data G source company
             in if edges \<noteq> []
                then fold (\<lambda>edge_data competitors.
                             if is_competes_with edge_data
                             then (if source \<notin> set competitors then competitors @ [source]
                                   else competitors)
                             else competitors) edges competitors
                else competitors) preds acc) =
   set acc \<union> {t \<in> set preds. list_ex is_competes_with (get_edge_data G t company)}"
  by (induction preds arbitrary: acc) (auto simp: Let_def inner_incoming)

lemma list_ex_edge_data:
  "list_ex is_competes_with (get_edge_data G a b) = competes_edge G a b"
  by (auto simp: get_edge_data_def competes_edge_def list_ex_iff)

lemma competes_edge_succ: "competes_edge G a b \<Longrightarrow> b \<in> set (succ_list G a)"
  by (auto simp: competes_edge_def list_ex_iff set_succ_list)

lemma competes_edge_pred: "competes_edge G a b \<Longrightarrow> a \<in> set (pred_list G b)"
  by (auto simp: competes_edge_def list_ex_iff set_pred_list)

lemma get_competitors_set:
  assumes "has_node (graph s) c"
  shows "\<exists>xs. get_competitors s c = Inr xs \<and>
              set xs = {n. competes_edge (graph s) c n \<or> competes_edge (graph s) n c}"
proof -
  let ?G = "graph s"
  have r: "get_competitors s c =
        Inr (incoming_competitors ?G c (pred_list ?G c) (outgoing_competitors ?G c (succ_list ?G c)))"
    using assms by (simp add: get_competitors_def successors_def predecessors_def Let_def)
  have o: "set (outgoing_competitors ?G c (succ_list ?G c)) = {n. competes_edge ?G c n}"
    unfolding outgoing_competitors_def set_outgoing_fold list_ex_edge_data
    using competes_edge_succ by auto
  have i: "set (incoming_competitors ?G c (pred_list ?G c) (outgoing_competitors ?G c (succ_list ?G c))) =
           {n. competes_edge ?G c n} \<union> {n. competes_edge ?G n c}"
    unfolding incoming_competitors_def set_incoming_fold list_ex_edge_data
    unfolding outgoing_competitors_def[symmetric] o
    using competes_edge_pred by auto
  show ?thesis using r i by auto
qed

lemma competes_with_symmetric:
  assumes "competes_edge (graph s) a b" and "has_node (graph s) a" and "has_node (graph s) b"
  shows "(\<exists>xs. get_competitors s a = Inr xs \<and> b \<in> set xs) \<and>
         (\<exists>ys. get_competitors s b = Inr ys \<and> a \<in> set ys)"
  using get_competitors_set[OF assms(2)] get_competitors_set[OF assms(3)] assms(1) by auto

text \<open>
  Claim C4 on the code: with two \<^verbatim>\<open>competes_with\<close> edges from \<^verbatim>\<open>Acme\<close> to
  \<^verbatim>\<open>Globex\<close> the first loop appends \<^verbatim>\<open>Globex\<close> once per edge, so the list has a
  duplicate.
\<close>

theorem get_competitors_duplicate:
  "get_competitors acme_globex_twice ''Acme'' = Inr [''Globex'', ''Globex'']"
  by code_simp

section \<open>Shared markets\<close>



lemma pred_list_nodes: "graph_ok G \<Longrightarrow> list_all (has_node G) (pred_list G n)"
  by (auto simp: graph_ok_def list_all_iff set_pred_list)


lemma graph_ok_add_relationship:
  "graph_ok (graph s) \<Longrightarrow> graph_ok (graph (add_relationship clk s a b t attrs))"
  by (simp add: graph_add_relationship graph_ok_add_edge)



lemma graph_ok_add_product:
  "graph_ok (graph s) \<Longrightarrow> graph_ok (graph (add_product clk s n c attrs))"
  by (simp add: add_product_def Let_def graph_ok_add_node graph_ok_add_relationship)

lemma graph_ok_add_person:
  "graph_ok (graph s) \<Longrightarrow> graph_ok (graph (add_person clk s n c r attrs))"
  by (simp add: add_person_def Let_def graph_ok_add_node graph_ok_add_relationship)





section \<open>Relationship lines\<close>

lemma py_split_no_sep: "\<not> py_contains sep s \<Longrightarrow> py_split sep s = [s]"
  by (induction sep s rule: py_split.induct) auto

lemma py_split_three_contains: "3 \<le> length (py_split sep s) \<Longrightarrow> py_contains sep s"
  using py_split_no_sep[of sep s] by (cases "py_contains sep s") auto

lemma process_relationships_Cons:
  "process_relationships clk s (line # rest) =
     process_relationships clk (process_relationship_line clk s line) rest"
  by (simp add: process_relationships_def)

text \<open>
  Claim C8. A line of the Relationships section is well formed when it starts with the
  bullet and its text, cut at \<^verbatim>\<open>->\<close>, has at least three parts; the source is the
  first part and the target is the third part up to its first colon, both stripped. Such
  a line adds exactly one edge, from the source to the target and typed by the second
  part, when both names are nodes of the graph at that moment. When either is not, the
  line changes nothing at all: the state, and so the edge count, is as before, and the
  loop goes on to the remaining lines as if the line had not been there.
\<close>

theorem relationship_line_needs_both_endpoints:
  assumes "startswith line ''- ''"
      and "parts = py_split ''->'' (py_strip (drop 2 line))"
      and "3 \<le> length parts"
      and "source = py_strip (parts ! 0)"
      and "target = py_strip (split_once '':'' (parts ! 2) ! 0)"
  shows "if has_node (graph s) source \<and> has_node (graph s) target
         then number_of_edges (graph (process_relationship_line clk s line)) =
                number_of_edges (graph s) + 1 \<and>
              (\<exists>d. g_edges (graph (process_relationship_line clk s line)) =
                      g_edges (graph s) @ [\<lparr>e_source = source, e_target = target, e_data = d\<rparr>] \<and>
                    py_get d ''relationship_type'' = PyStr (py_strip (parts ! 1)))
         else process_relationship_line clk s line = s \<and>
              number_of_edges (graph (process_relationship_line clk s line)) =
                number_of_edges (graph s) \<and>
              process_relationships clk s (line # rest) = process_relationships clk s rest"
proof -
  have c: "py_contains ''->'' (py_strip (drop 2 line))"
    using assms(2,3) py_split_three_contains by blast
  show ?thesis
  proof (cases "has_node (graph s) source \<and> has_node (graph s) target")
    case True
    then show ?thesis
      using assms c
      by (simp add: process_relationship_line_def Let_def graph_add_relationship
            g_edges_add_edge number_of_edges_def py_get_def)
  next
    case False
    then have "process_relationship_line clk s line = s"
      using assms c by (auto simp: process_relationship_line_def Let_def)
    then show ?thesis
      using False by (simp add: process_relationships_Cons)
  qed
qed

theorem relationship_line_needs_both_endpoints_witness:
  "startswith line_initech ''- '' \<and>
   py_split ''->'' (py_strip (drop 2 line_initech)) = [''Acme '', '' partners_with '', '' Initech''] \<and>
   \<not> has_node (graph acme_globex) ''Initech'' \<and>
   process_relationship_line clock0 acme_globex line_initech = acme_globex \<and>
   process_relationships clock0 acme_globex [line_initech, line_globex] =
     process_relationships clock0 acme_globex [line_globex] \<and>
   startswith line_globex ''- '' \<and>
   py_split ''->'' (py_strip (drop 2 line_globex)) =
     [''Acme '', '' partners_with '', '' Globex: joint venture''] \<and>
   has_node (graph acme_globex) ''Acme'' \<and> has_node (graph acme_globex) ''Globex'' \<and>
   number_of_edges (graph (process_relationship_line clock0 acme_globex line_globex)) =
     number_of_edges (graph acme_globex) + 1"
proof -
  have i1: "startswith line_initech ''- ''" by code_simp
  have i2: "[''Acme '', '' partners_with '', '' Initech''] =
              py_split ''->'' (py_strip (drop 2 line_initech))" by code_simp
  have i3: "3 \<le> length [''Acme '', '' partners_with '', '' Initech'']" by simp
  have i4: "''Acme'' = py_strip ([''Acme '', '' partners_with '', '' Initech''] ! 0)"
    by code_simp
  have i5: "''Initech'' =
              py_strip (split_once '':'' ([''Acme '', '' partners_with '', '' Initech''] ! 2) ! 0)"
    by code_simp
  have n1: "\<not> has_node (graph acme_globex) ''Initech''" by code_simp
  have g1: "startswith line_globex ''- ''" by code_simp
  have g2: "[''Acme '', '' partners_with '', '' Globex: joint venture''] =
              py_split ''->'' (py_strip (drop 2 line_globex))" by code_simp
  have g3: "3 \<le> length [''Acme '', '' partners_with '', '' Globex: joint venture'']" by simp
  have g4: "''Acme'' = py_strip ([''Acme '', '' partners_with '', '' Globex: joint venture''] ! 0)"
    by code_simp
  have g5: "''Globex'' =
              py_strip (split_once '':''
                ([''Acme '', '' partners_with '', '' Globex: joint venture''] ! 2) ! 0)"
    by code_simp
  have a: "has_node (graph acme_globex) ''Acme''" by code_simp
  have b: "has_node (graph acme_globex) ''Globex''" by code_simp
  have skip: "process_relationship_line clock0 acme_globex line_initech = acme_globex \<and>
              process_relationships clock0 acme_globex [line_initech, line_globex] =
                process_relationships clock0 acme_globex [line_globex]"
    using relationship_line_needs_both_endpoints
            [OF i1 i2 i3 i4 i5, of acme_globex clock0 "[line_globex]"] n1
    by (simp only: if_False simp_thms)
  have added: "number_of_edges (graph (process_relationship_line clock0 acme_globex line_globex)) =
                 number_of_edges (graph acme_globex) + 1"
    using relationship_line_needs_both_endpoints
            [OF g1 g2 g3 g4 g5, of acme_globex clock0 "[]"] a b
    by (simp only: if_True simp_thms)
  show ?thesis
    using i1 i2[symmetric] n1 skip g1 g2[symmetric] a b added by (intro conjI) (elim conjE, assumption)+
qed

section \<open>Attribute strings\<close>

lemma py_split_nonempty [simp]: "py_split sep s \<noteq> []"
  by (induction sep s rule: py_split.induct) (auto split: list.splits)






section \<open>Path discovery\<close>

lemma has_edge_iff: "has_edge G u v \<longleftrightarrow> (\<exists>e \<in> set (g_edges G). e_source e = u \<and> e_target e = v)"
  by (simp add: has_edge_def list_ex_iff)

lemma set_out_edges: "set (out_edges G u) = {v. has_edge G u v}"
  by (auto simp: out_edges_def get_edge_data_def set_succ_list has_edge_iff)

lemma extends_pathI:
  "p = path @ v # q \<Longrightarrow> v \<in> set es \<Longrightarrow> distinct (v # q) \<Longrightarrow> set (v # q) \<inter> set path = {} \<Longrightarrow>
   is_walk G (v # q) \<Longrightarrow> last (v # q) = t \<Longrightarrow> q = [] \<or> length p \<le> k + 1 \<Longrightarrow>
   extends_path G t k path es p"
  unfolding extends_path_def by blast

lemma extends_path_mono: "extends_path G t k path es p \<Longrightarrow> set es \<subseteq> set es' \<Longrightarrow> extends_path G t k path es' p"
  unfolding extends_path_def by blast

lemma extends_path_deeper:
  assumes "extends_path G t k (path @ [v]) (out_edges G v) p" and "v \<notin> set path"
      and "length path < k"
  shows "extends_path G t k path (v # es) p"
proof -
  from assms(1) obtain v' q' where q: "p = (path @ [v]) @ v' # q'" "v' \<in> set (out_edges G v)"
      "distinct (v' # q')" "set (v' # q') \<inter> set (path @ [v]) = {}"
      "is_walk G (v' # q')" "last (v' # q') = t" "q' = [] \<or> length p \<le> k + 1"
    unfolding extends_path_def by blast
  have len: "length p \<le> k + 1"
    using q(1,7) assms(3) by auto
  show ?thesis
  proof (rule extends_pathI[where v = v and q = "v' # q'"])
    show "p = path @ v # v' # q'" using q(1) by simp
    show "v \<in> set (v # es)" by simp
    show "distinct (v # v' # q')" using q(3,4) by auto
    show "set (v # v' # q') \<inter> set path = {}" using q(4) assms(2) by auto
    show "is_walk G (v # v' # q')" using q(2,5) by (simp add: set_out_edges)
    show "last (v # v' # q') = t" using q(6) by simp
    show "v' # q' = [] \<or> length p \<le> k + 1" using len by simp
  qed
qed

lemma explore_sound:
  "p \<in> set (explore G {t} k path es) \<Longrightarrow> extends_path G t k path es p"
proof (induction G "{t}" k path es arbitrary: p rule: explore.induct)
  case (1 G cutoff path)
  then show ?case by simp
next
  case (2 G cutoff path v es)
  show ?case
  proof (cases "v \<in> set path")
    case True
    with "2.prems" have "p \<in> set (explore G {t} cutoff path es)" by simp
    from "2.hyps"(1)[OF True this] show ?thesis
      by (rule extends_path_mono) auto
  next
    case False
    with "2.prems" have
      "(v = t \<and> p = path @ [v]) \<or>
       (length path < cutoff \<and> {t} - set path - {v} \<noteq> {} \<and>
          p \<in> set (explore G {t} cutoff (path @ [v]) (out_edges G v))) \<or>
       p \<in> set (explore G {t} cutoff path es)"
      by (simp split: if_splits) blast
    then consider
        (here) "v = t" "p = path @ [v]"
      | (deeper) "length path < cutoff" "{t} - set path - {v} \<noteq> {}"
                 "p \<in> set (explore G {t} cutoff (path @ [v]) (out_edges G v))"
      | (later) "p \<in> set (explore G {t} cutoff path es)"
      by blast
    then show ?thesis
    proof cases
      case here
      show ?thesis
        by (rule extends_pathI[where v = v and q = "[]"]) (use here False in simp_all)
    next
      case deeper
      have "extends_path G t cutoff (path @ [v]) (out_edges G v) p"
        by (rule "2.hyps"(2)[OF False _ deeper(3)]) (use deeper in simp)
      then show ?thesis using False deeper(1) by (rule extends_path_deeper)
    next
      case later
      from "2.hyps"(3)[OF False this] show ?thesis
        by (rule extends_path_mono) auto
    qed
  qed
qed


lemma explore_complete:
  "v0 \<in> set es \<Longrightarrow> distinct (v0 # q) \<Longrightarrow> set (v0 # q) \<inter> set path = {} \<Longrightarrow>
   is_walk G (v0 # q) \<Longrightarrow> last (v0 # q) = t \<Longrightarrow> q = [] \<or> length (path @ v0 # q) \<le> k + 1 \<Longrightarrow>
   path @ v0 # q \<in> set (explore G {t} k path es)"
proof (induction G "{t}" k path es arbitrary: v0 q rule: explore.induct)
  case (1 G cutoff path)
  then show ?case by simp
next
  case (2 G cutoff path v es)
  have v0_path: "v0 \<notin> set path" using "2.prems"(3) by auto
  show ?case
  proof (cases "v \<in> set path")
    case True
    with "2.prems"(1) v0_path have "v0 \<in> set es" by auto
    from "2.hyps"(1)[OF True this "2.prems"(2-6)] True show ?thesis by simp
  next
    case False
    show ?thesis
    proof (cases "v0 = v")
      case same: True
      show ?thesis
      proof (cases q)
        case Nil
        with "2.prems"(5) same False show ?thesis by simp
      next
        case (Cons v' q')
        have lt: "length path < cutoff" using "2.prems"(6) Cons by simp
        have "last (v' # q') = t" using "2.prems"(5) Cons by simp
        then have tin: "t \<in> set (v' # q')" using last_in_set[of "v' # q'"] by simp
        have t1: "t \<notin> set path" using tin "2.prems"(3) Cons by auto
        have t2: "t \<noteq> v" using tin "2.prems"(2) Cons same by auto
        have ne: "{t} - set path - {v} \<noteq> {}" using t1 t2 by auto
        have "(path @ [v]) @ v' # q' \<in> set (explore G {t} cutoff (path @ [v]) (out_edges G v))"
        proof (rule "2.hyps"(2)[OF False])
          show "length path < cutoff \<and> {t} - set path - {v} \<noteq> {}" using lt ne by simp
          show "v' \<in> set (out_edges G v)"
            using "2.prems"(4) Cons same by (simp add: set_out_edges)
          show "distinct (v' # q')" using "2.prems"(2) Cons by simp
          show "set (v' # q') \<inter> set (path @ [v]) = {}"
            using "2.prems"(2,3) Cons same by auto
          show "is_walk G (v' # q')" using "2.prems"(4) Cons same by simp
          show "last (v' # q') = t" using "2.prems"(5) Cons by simp
          show "q' = [] \<or> length ((path @ [v]) @ v' # q') \<le> cutoff + 1"
            using "2.prems"(6) Cons by simp
        qed
        then have "path @ v0 # q \<in> set (explore G {t} cutoff (path @ [v]) (out_edges G v))"
          using same Cons by simp
        then show ?thesis using False lt ne by simp
      qed
    next
      case diff: False
      with "2.prems"(1) have "v0 \<in> set es" by auto
      from "2.hyps"(3)[OF False this "2.prems"(2-6)] False show ?thesis by simp
    qed
  qed
qed

lemma explore_from_source:
  "set (explore G {t} k [] [s]) = {p. simple_path G s t p \<and> length p \<le> k + 1}"
proof (intro set_eqI iffI)
  fix p assume "p \<in> set (explore G {t} k [] [s])"
  from explore_sound[OF this] obtain q where
      "p = s # q" "distinct (s # q)" "is_walk G (s # q)" "last (s # q) = t"
      "q = [] \<or> length p \<le> k + 1"
    unfolding extends_path_def by auto
  then show "p \<in> {p. simple_path G s t p \<and> length p \<le> k + 1}"
    by (auto simp: simple_path_def)
next
  fix p assume "p \<in> {p. simple_path G s t p \<and> length p \<le> k + 1}"
  then obtain q where p: "p = s # q" "distinct (s # q)" "is_walk G (s # q)" "last (s # q) = t"
      "length p \<le> k + 1"
    by (cases p) (auto simp: simple_path_def)
  have "[] @ s # q \<in> set (explore G {t} k [] [s])"
    by (rule explore_complete) (use p in simp_all)
  then show "p \<in> set (explore G {t} k [] [s])" using p(1) by simp
qed

text \<open>
  Claim C5. For all nodes \<open>source\<close> and \<open>target\<close> of the graph and every bound
  \<open>max_length\<close>, \<^verbatim>\<open>get_relationship_path\<close> returns without raising, and the paths it
  returns are exactly the simple directed paths from \<open>source\<close> to \<open>target\<close> with at
  most \<open>max_length\<close> edges: a list of nodes is among the returned paths if and only if it
  is such a path. In particular the result is the empty list exactly when no simple path
  fits the bound, as when the only route has three edges and the bound is two. (With
  parallel edges the library lists a node path once per choice of edges, and without
  them once, as \<open>get_relationship_path_distinct\<close> below shows; the statement here is
  about which paths are returned.)
\<close>

theorem get_relationship_path_simple_paths:
  assumes "has_node (graph s) source" and "has_node (graph s) target"
  shows "\<exists>paths. get_relationship_path s source target max_length = Inr paths \<and>
           set paths = {p. simple_path (graph s) source target p \<and>
                           int (length p) - 1 \<le> max_length} \<and>
           (paths = []) =
             (\<not> (\<exists>p. simple_path (graph s) source target p \<and> int (length p) - 1 \<le> max_length))"
proof -
  define ps where
    "ps = (if max_length \<ge> 0 then explore (graph s) {target} (nat max_length) [] [source] else [])"
  have r: "get_relationship_path s source target max_length = Inr ps"
    using assms unfolding ps_def get_relationship_path_def all_simple_paths_def
    by (simp del: explore.simps)
  have st: "set ps = {p. simple_path (graph s) source target p \<and> int (length p) - 1 \<le> max_length}"
  proof (cases "max_length \<ge> 0")
    case True
    then have "\<And>p::string list. (length p \<le> nat max_length + 1) = (int (length p) - 1 \<le> max_length)"
      by auto
    then have "{p. simple_path (graph s) source target p \<and> length p \<le> nat max_length + 1} =
               {p. simple_path (graph s) source target p \<and> int (length p) - 1 \<le> max_length}"
      by simp
    with True explore_from_source[of "graph s" target "nat max_length" source]
    show ?thesis unfolding ps_def by (simp only: if_True)
  next
    case False
    have "\<And>p. simple_path (graph s) source target p \<Longrightarrow> int (length p) - 1 \<ge> 0"
      by (auto simp: simple_path_def)
    with False have "{p. simple_path (graph s) source target p \<and> int (length p) - 1 \<le> max_length} = {}"
      by fastforce
    with False show ?thesis unfolding ps_def by (simp only: if_False list.set)
  qed
  have em: "(ps = []) =
             (\<not> (\<exists>p. simple_path (graph s) source target p \<and> int (length p) - 1 \<le> max_length))"
  proof -
    have "(ps = []) = (set ps = {})" by simp
    also have "\<dots> = (\<not> (\<exists>p. simple_path (graph s) source target p \<and> int (length p) - 1 \<le> max_length))"
      unfolding st by blast
    finally show ?thesis .
  qed
  show ?thesis by (intro exI[of _ ps] conjI r st em)
qed

theorem get_relationship_path_simple_paths_witness:
  "has_node (graph chain_abcd) ''A'' \<and> has_node (graph chain_abcd) ''D'' \<and>
   get_relationship_path chain_abcd ''A'' ''D'' 2 = Inr [] \<and>
   \<not> (\<exists>p. simple_path (graph chain_abcd) ''A'' ''D'' p \<and> int (length p) - 1 \<le> 2) \<and>
   get_relationship_path chain_abcd ''A'' ''D'' 3 = Inr [[''A'', ''B'', ''C'', ''D'']] \<and>
   {p. simple_path (graph chain_abcd) ''A'' ''D'' p \<and> int (length p) - 1 \<le> 3} =
     {[''A'', ''B'', ''C'', ''D'']}"
proof -
  have a: "has_node (graph chain_abcd) ''A''" by code_simp
  have d: "has_node (graph chain_abcd) ''D''" by code_simp
  have two: "get_relationship_path chain_abcd ''A'' ''D'' 2 = Inr []" by code_simp
  have three: "get_relationship_path chain_abcd ''A'' ''D'' 3 = Inr [[''A'', ''B'', ''C'', ''D'']]"
    by code_simp
  from get_relationship_path_simple_paths [OF a d, of 2] two
  have n2: "\<not> (\<exists>p. simple_path (graph chain_abcd) ''A'' ''D'' p \<and> int (length p) - 1 \<le> 2)"
    by auto
  from get_relationship_path_simple_paths [OF a d, of 3] three
  have s3: "{p. simple_path (graph chain_abcd) ''A'' ''D'' p \<and> int (length p) - 1 \<le> 3} =
              {[''A'', ''B'', ''C'', ''D'']}"
    by auto
  show ?thesis using a d two three n2 s3 by (intro conjI)
qed

text \<open>
  In a graph with no parallel edges no path is listed twice.
\<close>

lemma filter_distinct_map_le1:
  "distinct (map f xs) \<Longrightarrow> length (filter (\<lambda>x. f x = y) xs) \<le> 1"
proof (induction xs)
  case Nil
  then show ?case by simp
next
  case (Cons x xs)
  show ?case
  proof (cases "f x = y")
    case True
    from Cons.prems have "f x \<notin> f ` set xs" by simp
    with True have "\<forall>z \<in> set xs. f z \<noteq> y"
      by blast
    then have "filter (\<lambda>x. f x = y) xs = []"
      by (simp add: filter_empty_conv)
    with True show ?thesis by simp
  next
    case False
    with Cons show ?thesis by simp
  qed
qed

lemma single_edge:
  assumes "no_parallel_edges G" and "v \<in> set (succ_list G u)"
  shows "map (\<lambda>d. v) (get_edge_data G u v) = [v]"
proof -
  have "length (filter (\<lambda>e. (e_source e, e_target e) = (u, v)) (g_edges G)) \<le> 1"
    using assms(1) unfolding no_parallel_edges_def by (rule filter_distinct_map_le1)
  then have le: "length (get_edge_data G u v) \<le> 1"
    by (simp add: get_edge_data_def)
  have "get_edge_data G u v \<noteq> []"
    using assms(2) by (auto simp: set_succ_list get_edge_data_def filter_empty_conv)
  with le obtain d where "get_edge_data G u v = [d]"
    by (cases "get_edge_data G u v") auto
  then show ?thesis by simp
qed

lemma concat_singletons: "concat (map (\<lambda>v. [v]) xs) = xs"
  by (induction xs) auto

lemma out_edges_no_parallel: "no_parallel_edges G \<Longrightarrow> out_edges G u = succ_list G u"
proof -
  assume np: "no_parallel_edges G"
  have "map (\<lambda>v. map (\<lambda>d. v) (get_edge_data G u v)) (succ_list G u) =
        map (\<lambda>v. [v]) (succ_list G u)"
    by (rule map_cong[OF refl]) (simp add: single_edge[OF np])
  then show ?thesis unfolding out_edges_def by (simp only: concat_singletons)
qed

lemma distinct_append3:
  "distinct A \<Longrightarrow> distinct B \<Longrightarrow> distinct C \<Longrightarrow> set A \<inter> set B = {} \<Longrightarrow>
   set A \<inter> set C = {} \<Longrightarrow> set B \<inter> set C = {} \<Longrightarrow> distinct (A @ B @ C)"
  by auto

lemma explore_distinct:
  "no_parallel_edges G \<Longrightarrow> distinct es \<Longrightarrow> distinct (explore G {t} k path es)"
proof (induction G "{t}" k path es rule: explore.induct)
  case (1 G cutoff path)
  then show ?case by simp
next
  case (2 G cutoff path v es)
  have des: "distinct es" and ves: "v \<notin> set es" using "2.prems"(2) by auto
  show ?case
  proof (cases "v \<in> set path")
    case True
    with "2.hyps"(1)[OF True "2.prems"(1) des] show ?thesis by simp
  next
    case False
    let ?A = "if v \<in> {t} then [path @ [v]] else []"
    let ?B = "if length path < cutoff \<and> {t} - set path - {v} \<noteq> {}
              then explore G {t} cutoff (path @ [v]) (out_edges G v) else []"
    let ?C = "explore G {t} cutoff path es"
    have dA: "distinct ?A" by simp
    have dB: "distinct ?B"
    proof (cases "length path < cutoff \<and> {t} - set path - {v} \<noteq> {}")
      case c: True
      have "distinct (out_edges G v)"
        using "2.prems"(1) by (simp add: out_edges_no_parallel succ_list_def)
      from "2.hyps"(2)[OF False c "2.prems"(1) this] c show ?thesis by simp
    next
      case nc: False
      show ?thesis by (simp only: if_not_P[OF nc] distinct.simps)
    qed
    have dC: "distinct ?C" by (rule "2.hyps"(3)[OF False "2.prems"(1) des])
    have B_form: "\<exists>v' q'. p = path @ v # v' # q'" if "p \<in> set ?B" for p
    proof -
      from that have "p \<in> set (explore G {t} cutoff (path @ [v]) (out_edges G v))"
        by (simp split: if_splits)
      from explore_sound[OF this] show ?thesis
        unfolding extends_path_def by auto
    qed
    have C_form: "\<exists>v0 q. p = path @ v0 # q \<and> v0 \<in> set es" if "p \<in> set ?C" for p
      using explore_sound[OF that] unfolding extends_path_def by auto
    have A_form: "p = path @ [v]" if "p \<in> set ?A" for p
      using that by (simp split: if_splits)
    have AB: "set ?A \<inter> set ?B = {}"
    proof -
      have False if "p \<in> set ?A" "p \<in> set ?B" for p
        using A_form[OF that(1)] B_form[OF that(2)] by simp
      then show ?thesis by blast
    qed
    have AC: "set ?A \<inter> set ?C = {}"
    proof -
      have False if "p \<in> set ?A" "p \<in> set ?C" for p
        using A_form[OF that(1)] C_form[OF that(2)] ves by auto
      then show ?thesis by blast
    qed
    have BC: "set ?B \<inter> set ?C = {}"
    proof -
      have False if "p \<in> set ?B" "p \<in> set ?C" for p
      proof -
        from B_form[OF that(1)] obtain v' q' where 1: "p = path @ v # v' # q'" by blast
        from C_form[OF that(2)] obtain v0 q where 2: "p = path @ v0 # q" "v0 \<in> set es" by blast
        from 1 2 have "v = v0" by simp
        with 2(2) ves show False by simp
      qed
      then show ?thesis by blast
    qed
    have "explore G {t} cutoff path (v # es) = ?A @ ?B @ ?C"
      using False by simp
    moreover have "distinct (?A @ ?B @ ?C)"
      by (rule distinct_append3[OF dA dB dC AB AC BC])
    ultimately show ?thesis by (simp only:)
  qed
qed

lemma get_relationship_path_distinct:
  assumes "no_parallel_edges (graph s)" and "has_node (graph s) source"
      and "has_node (graph s) target"
  shows "\<exists>paths. get_relationship_path s source target max_length = Inr paths \<and> distinct paths"
proof -
  have r: "get_relationship_path s source target max_length =
        Inr (if max_length \<ge> 0 then explore (graph s) {target} (nat max_length) [] [source] else [])"
    using assms(2,3) unfolding get_relationship_path_def all_simple_paths_def
    by (simp del: explore.simps)
  have d: "distinct (explore (graph s) {target} (nat max_length) [] [source])"
    by (rule explore_distinct[OF assms(1)]) simp
  have "distinct (if max_length \<ge> 0 then explore (graph s) {target} (nat max_length) [] [source] else [])"
    using d by (simp only: distinct.simps split: if_split) simp
  with r show ?thesis by blast
qed

text \<open>
  The edge made by \<^verbatim>\<open>add_relationship\<close> is found by path discovery, also when its
  endpoints were created by that call.
\<close>

lemma new_edge_is_a_path:
  assumes "source \<noteq> target"
  shows "\<exists>paths. get_relationship_path (add_relationship clk s source target rel attrs)
                   source target 1 = Inr paths \<and>
                 [source, target] \<in> set paths"
proof -
  let ?G = "graph (add_relationship clk s source target rel attrs)"
  have e: "has_edge ?G source target"
    by (simp add: has_edge_def graph_add_relationship g_edges_add_edge)
  have sp: "simple_path ?G source target [source, target]"
    using assms e by (simp add: simple_path_def)
  have n: "has_node ?G source" "has_node ?G target"
    by (simp_all add: graph_add_relationship)
  have r: "get_relationship_path (add_relationship clk s source target rel attrs) source target 1 =
             Inr (explore ?G {target} 1 [] [source])"
    using n unfolding get_relationship_path_def all_simple_paths_def
    by (simp del: explore.simps)
  have "[source, target] \<in> set (explore ?G {target} 1 [] [source])"
    unfolding explore_from_source using sp by simp
  with r show ?thesis by blast
qed

section \<open>The scenarios of the specification\<close>

lemma scenario_competitors:
  "get_competitors acme_globex ''Acme'' = Inr [''Globex''] \<and>
   get_competitors acme_globex ''Globex'' = Inr [''Acme'']"
  by (intro conjI; code_simp)

lemma scenario_shared_market:
  "get_shared_markets shared_cloud ''Acme'' ''Globex'' = Inr {''Cloud''}"
  by code_simp

lemma scenario_relationship_line:
  "map (\<lambda>e. (e_source e, e_target e, py_get (e_data e) ''relationship_type'',
               py_get (e_data e) ''description''))
       (g_edges (graph (process_relationships clock0 acme_globex [line_globex]))) =
   [(''Acme'', ''Globex'', PyStr ''competes_with'', PyNone),
    (''Acme'', ''Globex'', PyStr ''partners_with'', PyStr ''joint venture'')]"
  by code_simp

end
